theory Spec2Isabelle
  imports Main
begin

section \<open>Values, strings and arrays of the host language\<close>

text \<open>
  A string is its sequence of UTF-16 code units. The numbers that occur in
  \<^verbatim>\<open>src/fuzzy.ts\<close> are array indexes and character codes, so a value is a
  natural number, \<^verbatim>\<open>NaN\<close> (what \<^verbatim>\<open>charCodeAt\<close> gives out of range)
  or \<^verbatim>\<open>undefined\<close> (what reading an array out of range gives).
\<close>

type_synonym jsstring = "nat list"

datatype jsvalue = Num nat | NaN | Undefined

text \<open>\<^verbatim>\<open>s.charCodeAt(i)\<close>\<close>

definition charCodeAt :: "jsstring \<Rightarrow> nat \<Rightarrow> jsvalue" where
  "charCodeAt s i = (if i < length s then Num (s ! i) else NaN)"

text \<open>
  The comparisons \<^verbatim>\<open>v >= n\<close>, \<^verbatim>\<open>v <= n\<close> and \<^verbatim>\<open>v > n\<close> of a value with a
  number: \<^verbatim>\<open>NaN\<close> and \<^verbatim>\<open>undefined\<close> (which converts to \<^verbatim>\<open>NaN\<close>) compare false.
\<close>

fun ge :: "jsvalue \<Rightarrow> nat \<Rightarrow> bool" where
  "ge (Num a) n = (n \<le> a)"
| "ge NaN n = False"
| "ge Undefined n = False"

fun le :: "jsvalue \<Rightarrow> nat \<Rightarrow> bool" where
  "le (Num a) n = (a \<le> n)"
| "le NaN n = False"
| "le Undefined n = False"

fun gt :: "jsvalue \<Rightarrow> nat \<Rightarrow> bool" where
  "gt (Num a) n = (n < a)"
| "gt NaN n = False"
| "gt Undefined n = False"

text \<open>\<^verbatim>\<open>a === b\<close>: \<^verbatim>\<open>NaN\<close> is not equal to itself.\<close>

definition strict_equals :: "jsvalue \<Rightarrow> jsvalue \<Rightarrow> bool" where
  "strict_equals a b = (a = b \<and> a \<noteq> NaN)"

text \<open>
  \<^verbatim>\<open>xs[i]\<close> reads \<^verbatim>\<open>undefined\<close> out of range; \<^verbatim>\<open>xs[i] = v\<close> overwrites in
  range and extends the array otherwise, the skipped positions reading
  \<^verbatim>\<open>undefined\<close>.
\<close>

definition array_get :: "jsvalue list \<Rightarrow> nat \<Rightarrow> jsvalue" where
  "array_get xs i = (if i < length xs then xs ! i else Undefined)"

definition array_set :: "jsvalue list \<Rightarrow> nat \<Rightarrow> jsvalue \<Rightarrow> jsvalue list" where
  "array_set xs i v =
     (if i < length xs then xs[i := v]
      else xs @ replicate (i - length xs) Undefined @ [v])"

text \<open>\<^verbatim>\<open>fillNumberArray\<close> (lines 205-211): an array of \<^verbatim>\<open>size\<close> zeros.\<close>

definition fillNumberArray :: "nat \<Rightarrow> jsvalue list" where
  "fillNumberArray n = replicate n (Num 0)"

section \<open>Boundary analysis\<close>

text \<open>
  \<^verbatim>\<open>prepareBeginningIndexes\<close> (lines 163-184). The loop carries \<^verbatim>\<open>i\<close>,
  \<^verbatim>\<open>wasUpper\<close>, \<^verbatim>\<open>wasAlphanum\<close>, the array and \<^verbatim>\<open>beginningIndexesLen\<close>.
\<close>

function prepareBeginningIndexes_loop ::
  "jsstring \<Rightarrow> nat \<Rightarrow> bool \<Rightarrow> bool \<Rightarrow> jsvalue list \<Rightarrow> nat \<Rightarrow> jsvalue list" where
  "prepareBeginningIndexes_loop target i wasUpper wasAlphanum beginningIndexes beginningIndexesLen =
     (if i < length target then
        let targetCode = charCodeAt target i;
            isUpper = (ge targetCode 65 \<and> le targetCode 90);
            isAlphanum = (isUpper \<or> (ge targetCode 97 \<and> le targetCode 122)
                                  \<or> (ge targetCode 48 \<and> le targetCode 57));
            isBeginning = ((isUpper \<and> \<not> wasUpper) \<or> \<not> wasAlphanum \<or> \<not> isAlphanum)
        in if isBeginning
           then prepareBeginningIndexes_loop target (i + 1) isUpper isAlphanum
                  (array_set beginningIndexes beginningIndexesLen (Num i))
                  (beginningIndexesLen + 1)
           else prepareBeginningIndexes_loop target (i + 1) isUpper isAlphanum
                  beginningIndexes beginningIndexesLen
      else beginningIndexes)"
  by pat_completeness auto
termination
  by (relation "measure (\<lambda>(target, i, _). length target - i)") auto

definition prepareBeginningIndexes :: "jsstring \<Rightarrow> jsvalue list" where
  "prepareBeginningIndexes target =
     prepareBeginningIndexes_loop target 0 False False [] 0"

text \<open>
  \<^verbatim>\<open>prepareNextBeginningIndexes\<close> (lines 186-202). The loop carries \<^verbatim>\<open>i\<close>,
  \<^verbatim>\<open>lastIsBeginning\<close> (a number or \<^verbatim>\<open>undefined\<close>), \<^verbatim>\<open>lastIsBeginningI\<close>
  and the array being filled.
\<close>

function prepareNextBeginningIndexes_loop ::
  "nat \<Rightarrow> jsvalue list \<Rightarrow> nat \<Rightarrow> jsvalue \<Rightarrow> nat \<Rightarrow> jsvalue list \<Rightarrow> jsvalue list" where
  "prepareNextBeginningIndexes_loop targetLen beginningIndexes i lastIsBeginning
       lastIsBeginningI nextBeginningIndexes =
     (if i < targetLen then
        if gt lastIsBeginning i
        then prepareNextBeginningIndexes_loop targetLen beginningIndexes (i + 1)
               lastIsBeginning lastIsBeginningI
               (array_set nextBeginningIndexes i lastIsBeginning)
        else
          let lastIsBeginningI' = lastIsBeginningI + 1;
              lastIsBeginning' = array_get beginningIndexes lastIsBeginningI'
          in prepareNextBeginningIndexes_loop targetLen beginningIndexes (i + 1)
               lastIsBeginning' lastIsBeginningI'
               (array_set nextBeginningIndexes i
                  (if strict_equals lastIsBeginning' Undefined then Num targetLen
                   else lastIsBeginning'))
      else nextBeginningIndexes)"
  by pat_completeness auto
termination
  by (relation "measure (\<lambda>(targetLen, _, i, _). targetLen - i)") auto

definition prepareNextBeginningIndexes :: "jsstring \<Rightarrow> jsvalue list" where
  "prepareNextBeginningIndexes target =
     (let targetLen = length target;
          beginningIndexes = prepareBeginningIndexes target;
          nextBeginningIndexes = fillNumberArray targetLen;
          lastIsBeginning = array_get beginningIndexes 0
      in prepareNextBeginningIndexes_loop targetLen beginningIndexes 0
           lastIsBeginning 0 nextBeginningIndexes)"

section \<open>Prepared forms\<close>

text \<open>
  \<^verbatim>\<open>prepareLowerCodes\<close> (lines 152-161). \<^verbatim>\<open>String.prototype.toLowerCase\<close>
  belongs to the host, and is a parameter here: nothing is assumed of it, not
  even that it keeps the length of the string.
\<close>

function prepareLowerCodes_loop ::
  "jsstring \<Rightarrow> nat \<Rightarrow> nat \<Rightarrow> jsvalue list \<Rightarrow> jsvalue list" where
  "prepareLowerCodes_loop lower searchLen i lowerCodes =
     (if i < searchLen
      then prepareLowerCodes_loop lower searchLen (i + 1)
             (array_set lowerCodes i (charCodeAt lower i))
      else lowerCodes)"
  by pat_completeness auto
termination
  by (relation "measure (\<lambda>(_, searchLen, i, _). searchLen - i)") auto

definition prepareLowerCodes :: "(jsstring \<Rightarrow> jsstring) \<Rightarrow> jsstring \<Rightarrow> jsvalue list" where
  "prepareLowerCodes toLowerCase search =
     (let searchLen = length search;
          lowerCodes = fillNumberArray searchLen;
          lower = toLowerCase search
      in prepareLowerCodes_loop lower searchLen 0 lowerCodes)"

text \<open>\<^verbatim>\<open>PreparedSearch\<close> (line 27) and \<^verbatim>\<open>PreparedTarget\<close> (lines 31-40).\<close>

type_synonym PreparedSearch = "jsvalue list"

typedecl js_object

record PreparedTarget =
  pt_target :: jsstring
  pt_score :: "int option"
  pt_indexes :: "jsvalue list option"
  pt_obj :: "js_object option"
  pt_targetLowerCodes :: "jsvalue list"
  pt_nextBeginningIndexes :: "jsvalue list"

text \<open>\<^verbatim>\<open>prepareSearch\<close> (lines 137-139) and \<^verbatim>\<open>prepareTarget\<close> (lines 141-150).\<close>

definition prepareSearch :: "(jsstring \<Rightarrow> jsstring) \<Rightarrow> jsstring \<Rightarrow> PreparedSearch" where
  "prepareSearch toLowerCase search = prepareLowerCodes toLowerCase search"

definition prepareTarget :: "(jsstring \<Rightarrow> jsstring) \<Rightarrow> jsstring \<Rightarrow> PreparedTarget" where
  "prepareTarget toLowerCase target =
     \<lparr> pt_target = target,
       pt_score = None,
       pt_indexes = None,
       pt_obj = None,
       pt_targetLowerCodes = prepareLowerCodes toLowerCase target,
       pt_nextBeginningIndexes = prepareNextBeginningIndexes target \<rparr>"

section \<open>The module's state and the preparation caches\<close>

text \<open>
  The module-level \<^verbatim>\<open>searchCache\<close> (line 29), \<^verbatim>\<open>targetCache\<close> (line 42) and
  \<^verbatim>\<open>matchesSimple\<close> (line 44). Every operation takes the state and returns
  the new one.
\<close>

record fuzzy_state =
  searchCache :: "jsstring \<rightharpoonup> PreparedSearch"
  targetCache :: "jsstring \<rightharpoonup> PreparedTarget"
  matchesSimple :: "jsvalue list"

definition MAX_SEARCH_STRING_LENGTH_FOR_CACHING :: nat where
  "MAX_SEARCH_STRING_LENGTH_FOR_CACHING = 999"

definition MAX_TARGET_STRING_LENGTH_FOR_CACHING :: nat where
  "MAX_TARGET_STRING_LENGTH_FOR_CACHING = 999"

text \<open>
  \<^verbatim>\<open>getPreparedTarget\<close> (lines 111-122). A cached entry is an object, hence
  truthy, so \<^verbatim>\<open>if (cachedTarget)\<close> is the test that the key is present.
\<close>

definition getPreparedTarget ::
  "(jsstring \<Rightarrow> jsstring) \<Rightarrow> fuzzy_state \<Rightarrow> jsstring \<Rightarrow> PreparedTarget \<times> fuzzy_state" where
  "getPreparedTarget toLowerCase st target =
     (if length target > MAX_TARGET_STRING_LENGTH_FOR_CACHING
      then (prepareTarget toLowerCase target, st)
      else case targetCache st target of
             Some cachedTarget \<Rightarrow> (cachedTarget, st)
           | None \<Rightarrow>
               let preparedTarget = prepareTarget toLowerCase target
               in (preparedTarget,
                   st\<lparr>targetCache := (targetCache st)(target \<mapsto> preparedTarget)\<rparr>))"

text \<open>
  \<^verbatim>\<open>getPreparedSearch\<close> (lines 124-135). A cached entry is an array, truthy
  even when empty.
\<close>

definition getPreparedSearch ::
  "(jsstring \<Rightarrow> jsstring) \<Rightarrow> fuzzy_state \<Rightarrow> jsstring \<Rightarrow> PreparedSearch \<times> fuzzy_state" where
  "getPreparedSearch toLowerCase st search =
     (if length search > MAX_SEARCH_STRING_LENGTH_FOR_CACHING
      then (prepareSearch toLowerCase search, st)
      else case searchCache st search of
             Some cachedSearch \<Rightarrow> (cachedSearch, st)
           | None \<Rightarrow>
               let preparedSearch = prepareSearch toLowerCase search
               in (preparedSearch,
                   st\<lparr>searchCache := (searchCache st)(search \<mapsto> preparedSearch)\<rparr>))"

section \<open>Scoring one target\<close>

text \<open>
  What \<^verbatim>\<open>single\<close> can hand back: \<^verbatim>\<open>null\<close>, \<^verbatim>\<open>undefined\<close>, or a result
  object carrying a score, as the usage comment of lines 4-13 shows it. No
  \<^verbatim>\<open>return\<close> of the source builds such an object. A call that does not
  return at all is \<open>None\<close> in the functions below.
\<close>

datatype single_result = ReturnNull | ReturnUndefined | ReturnMatch PreparedTarget

text \<open>
  The \<^verbatim>\<open>while (true)\<close> loop of \<^verbatim>\<open>algorithm\<close> (lines 101-108). Its body
  assigns \<^verbatim>\<open>matchesSimple\<close>, \<^verbatim>\<open>matchesSimpleLen\<close> and \<^verbatim>\<open>searchIndex\<close> only;
  it has no \<^verbatim>\<open>break\<close> and no \<^verbatim>\<open>return\<close>.
\<close>

partial_function (option) algorithm_loop ::
  "jsvalue \<Rightarrow> jsvalue list \<Rightarrow> nat \<Rightarrow> nat \<Rightarrow> nat \<Rightarrow> fuzzy_state
     \<Rightarrow> (single_result \<times> fuzzy_state) option" where
  "algorithm_loop searchLowerCode targetLowerCodes searchIndex targetIndex
       matchesSimpleLen st =
     (let isMatch = strict_equals searchLowerCode (array_get targetLowerCodes targetIndex)
      in if isMatch
         then algorithm_loop searchLowerCode targetLowerCodes (searchIndex + 1) targetIndex
                (matchesSimpleLen + 1)
                (st\<lparr>matchesSimple :=
                      array_set (matchesSimple st) matchesSimpleLen (Num targetIndex)\<rparr>)
         else algorithm_loop searchLowerCode targetLowerCodes searchIndex targetIndex
                matchesSimpleLen st)"

text \<open>
  \<^verbatim>\<open>algorithm\<close> (lines 78-109). The prepared target may be absent
  (\<^verbatim>\<open>!preparedTarget\<close>, line 82).
\<close>

definition algorithm ::
  "fuzzy_state \<Rightarrow> PreparedSearch \<Rightarrow> PreparedTarget option
     \<Rightarrow> (single_result \<times> fuzzy_state) option" where
  "algorithm st preparedSearch preparedTarget =
     (case preparedTarget of
        None \<Rightarrow> Some (ReturnUndefined, st)
      | Some pt \<Rightarrow>
          let targetLowerCodes = pt_targetLowerCodes pt;
              searchLen = length preparedSearch;
              targetLen = length targetLowerCodes;
              searchIndex = 0;
              targetIndex = 0;
              typoSimpleIndex = (0::nat);
              matchesSimpleLen = 0
          in if targetLen = 0 then Some (ReturnUndefined, st)
             else
               let searchLowerCode = array_get preparedSearch 0
               in algorithm_loop searchLowerCode targetLowerCodes searchIndex targetIndex
                    matchesSimpleLen st)"

text \<open>
  The arguments of \<^verbatim>\<open>single\<close> (lines 49-53): a string or a prepared form, or
  nothing (\<^verbatim>\<open>null\<close> or \<^verbatim>\<open>undefined\<close>). \<^verbatim>\<open>!search\<close> holds of an absent
  argument and of the empty string; \<^verbatim>\<open>isObj\<close> (lines 23-25) holds of the
  prepared forms.
\<close>

datatype search_arg = SearchAbsent | SearchString jsstring | SearchPrepared PreparedSearch

datatype target_arg = TargetAbsent | TargetString jsstring | TargetPrepared PreparedTarget

fun not_search :: "search_arg \<Rightarrow> bool" where
  "not_search SearchAbsent = True"
| "not_search (SearchString s) = (s = [])"
| "not_search (SearchPrepared p) = False"

fun not_target :: "target_arg \<Rightarrow> bool" where
  "not_target TargetAbsent = True"
| "not_target (TargetString s) = (s = [])"
| "not_target (TargetPrepared p) = False"

text \<open>
  \<^verbatim>\<open>IFuzzyOptions\<close> (lines 19-21); the field is optional, and so is the
  options object. \<^verbatim>\<open>options && options.allowTypo\<close> is truthy when the object
  is there and its field is \<^verbatim>\<open>true\<close>.
\<close>

record IFuzzyOptions =
  opt_allowTypo :: "bool option"

definition and_allowTypo :: "IFuzzyOptions option \<Rightarrow> bool" where
  "and_allowTypo options =
     (case options of
        None \<Rightarrow> False
      | Some opts \<Rightarrow> (case opt_allowTypo opts of None \<Rightarrow> False | Some b \<Rightarrow> b))"

text \<open>The value of the constant \<^verbatim>\<open>allowTypo\<close> (lines 68-71).\<close>

definition allowTypo_of :: "IFuzzyOptions option \<Rightarrow> IFuzzyOptions option \<Rightarrow> bool" where
  "allowTypo_of options instanceOptions =
     (and_allowTypo options \<or> and_allowTypo instanceOptions \<or> False)"

text \<open>
  \<^verbatim>\<open>single\<close> (lines 49-76), of an instance built with \<^verbatim>\<open>instanceOptions\<close>
  (line 47). The two \<open>Absent\<close> cases of the inner case distinctions are
  never reached: the tests \<^verbatim>\<open>!search\<close> and \<^verbatim>\<open>!target\<close> have returned before.
\<close>

definition single ::
  "(jsstring \<Rightarrow> jsstring) \<Rightarrow> IFuzzyOptions option \<Rightarrow> fuzzy_state
     \<Rightarrow> search_arg \<Rightarrow> target_arg \<Rightarrow> IFuzzyOptions option
     \<Rightarrow> (single_result \<times> fuzzy_state) option" where
  "single toLowerCase instanceOptions st search target options =
     (if not_search search then Some (ReturnNull, st)
      else
        let (search', st1) =
              (case search of
                 SearchString s \<Rightarrow> getPreparedSearch toLowerCase st s
               | SearchPrepared p \<Rightarrow> (p, st)
               | SearchAbsent \<Rightarrow> ([], st))
        in if not_target target then Some (ReturnNull, st1)
           else
             let (target', st2) =
                   (case target of
                      TargetString t \<Rightarrow>
                        (let (p, s') = getPreparedTarget toLowerCase st1 t in (Some p, s'))
                    | TargetPrepared p \<Rightarrow> (Some p, st1)
                    | TargetAbsent \<Rightarrow> (None, st1));
                 allowTypo = allowTypo_of options instanceOptions;
                 algorithm' = (if allowTypo then algorithm else algorithm)
             in algorithm' st2 search' target')"

text \<open>
  The state of a freshly loaded module (lines 29, 42 and 44), and string
  literals as code units.
\<close>

definition init_state :: fuzzy_state where
  "init_state = \<lparr> searchCache = Map.empty, targetCache = Map.empty, matchesSimple = [] \<rparr>"

definition str :: "string \<Rightarrow> jsstring" where
  "str s = map of_char s"

section \<open>The specification's vocabulary\<close>

text \<open>
  The two character classes as the ranges the source tests (lines 171-175),
  and the test \<^verbatim>\<open>isBeginning\<close> (line 176) as a property of a position of
  the string, the position before the first one counting as neither
  uppercase nor alphanumeric (lines 167-168).
\<close>

definition isUpper_code :: "nat \<Rightarrow> bool" where
  "isUpper_code c = (65 \<le> c \<and> c \<le> 90)"

definition isAlphanum_code :: "nat \<Rightarrow> bool" where
  "isAlphanum_code c = (isUpper_code c \<or> (97 \<le> c \<and> c \<le> 122) \<or> (48 \<le> c \<and> c \<le> 57))"

definition isBeginning_at :: "jsstring \<Rightarrow> nat \<Rightarrow> bool" where
  "isBeginning_at target i =
     ((isUpper_code (target ! i) \<and> \<not> (0 < i \<and> isUpper_code (target ! (i - 1))))
      \<or> \<not> (0 < i \<and> isAlphanum_code (target ! (i - 1)))
      \<or> \<not> isAlphanum_code (target ! i))"

text \<open>
  The classes as the specification words them: the 26 Latin capital letters;
  these, the 26 small letters and the digits 0-9.
\<close>

definition is_latin_capital :: "nat \<Rightarrow> bool" where
  "is_latin_capital c = (c \<in> set (str ''ABCDEFGHIJKLMNOPQRSTUVWXYZ''))"

definition is_ascii_alphanumeric :: "nat \<Rightarrow> bool" where
  "is_ascii_alphanumeric c =
     (c \<in> set (str ''ABCDEFGHIJKLMNOPQRSTUVWXYZ'')
      \<or> c \<in> set (str ''abcdefghijklmnopqrstuvwxyz'')
      \<or> c \<in> set (str ''0123456789''))"

text \<open>
  The word beginnings of a string from position \<open>i\<close> on, in increasing
  order, and the smallest element of a list, or a default when it is empty.
\<close>

definition beginnings_from :: "jsstring \<Rightarrow> nat \<Rightarrow> nat list" where
  "beginnings_from target i =
     [b \<leftarrow> [i..<length target]. Num b \<in> set (prepareBeginningIndexes target)]"

definition smallest_or :: "nat list \<Rightarrow> nat \<Rightarrow> nat" where
  "smallest_or bs d = (if bs = [] then d else Min (set bs))"

text \<open>
  The entry the specification words for position \<open>i\<close>: the smallest word
  beginning that is greater than or equal to \<open>i\<close>, or the length of the
  string if there is none.
\<close>

definition nextBoundary_at_or_after :: "jsstring \<Rightarrow> nat \<Rightarrow> nat" where
  "nextBoundary_at_or_after target i = smallest_or (beginnings_from target i) (length target)"

text \<open>The same, of the word beginnings strictly greater than \<open>i\<close>.\<close>

definition nextBoundary_after :: "jsstring \<Rightarrow> nat \<Rightarrow> nat" where
  "nextBoundary_after target i = smallest_or (beginnings_from target (i + 1)) (length target)"

text \<open>The head of a list, or a default when it is empty.\<close>

definition first_or :: "nat list \<Rightarrow> nat \<Rightarrow> nat" where
  "first_or bs d = (case bs of [] \<Rightarrow> d | b # _ \<Rightarrow> b)"

section \<open>The loops and the lengths of the prepared sequences\<close>

declare prepareBeginningIndexes_loop.simps [simp del]
declare prepareNextBeginningIndexes_loop.simps [simp del]
declare prepareLowerCodes_loop.simps [simp del]

lemma array_set_length_in_range: "i < length xs \<Longrightarrow> length (array_set xs i v) = length xs"
  by (simp add: array_set_def)

lemma prepareLowerCodes_loop_length:
  "searchLen \<le> length lowerCodes \<Longrightarrow>
   length (prepareLowerCodes_loop lower searchLen i lowerCodes) = length lowerCodes"
proof (induction lower searchLen i lowerCodes rule: prepareLowerCodes_loop.induct)
  case (1 lower searchLen i lowerCodes)
  show ?case
  proof (cases "i < searchLen")
    case True
    then have "length (array_set lowerCodes i (charCodeAt lower i)) = length lowerCodes"
      using "1.prems" by (simp add: array_set_length_in_range)
    with True "1.IH" "1.prems" show ?thesis
      by (subst prepareLowerCodes_loop.simps) simp
  next
    case False
    then show ?thesis by (subst prepareLowerCodes_loop.simps) simp
  qed
qed

lemma prepareLowerCodes_length: "length (prepareLowerCodes toLowerCase s) = length s"
  by (simp add: prepareLowerCodes_def Let_def fillNumberArray_def prepareLowerCodes_loop_length)

lemma prepareNextBeginningIndexes_loop_length:
  "targetLen \<le> length nexts \<Longrightarrow>
   length (prepareNextBeginningIndexes_loop targetLen bs i lastB lastI nexts) = length nexts"
proof (induction targetLen bs i lastB lastI nexts rule: prepareNextBeginningIndexes_loop.induct)
  case (1 targetLen bs i lastB lastI nexts)
  show ?case
  proof (cases "i < targetLen")
    case False
    then show ?thesis by (subst prepareNextBeginningIndexes_loop.simps) simp
  next
    case True
    then have len: "length (array_set nexts i v) = length nexts" for v
      using "1.prems" by (simp add: array_set_length_in_range)
    show ?thesis
    proof (cases "gt lastB i")
      case True
      with \<open>i < targetLen\<close> "1.IH"(1) "1.prems" len show ?thesis
        by (subst prepareNextBeginningIndexes_loop.simps) simp
    next
      case False
      with \<open>i < targetLen\<close> "1.IH"(2) "1.prems" len show ?thesis
        by (subst prepareNextBeginningIndexes_loop.simps) (simp add: Let_def)
    qed
  qed
qed

lemma prepareNextBeginningIndexes_length:
  "length (prepareNextBeginningIndexes target) = length target"
  by (simp add: prepareNextBeginningIndexes_def Let_def fillNumberArray_def
      prepareNextBeginningIndexes_loop_length)

text \<open>
  C8: for every string, the prepared target built from it holds the string,
  and its sequence of lowercase codes and its sequence of next beginning
  indexes each have the length of the string (whatever the host's
  \<^verbatim>\<open>toLowerCase\<close> returns).
\<close>

theorem prepareTarget_sequence_lengths:
  "length (pt_targetLowerCodes (prepareTarget toLowerCase target)) = length target
   \<and> length (pt_nextBeginningIndexes (prepareTarget toLowerCase target)) = length target
   \<and> pt_target (prepareTarget toLowerCase target) = target"
  by (simp add: prepareTarget_def prepareLowerCodes_length prepareNextBeginningIndexes_length)

theorem prepareTarget_sequence_lengths_witness:
  "length (pt_targetLowerCodes (prepareTarget (\<lambda>s. s) (str ''Fuzzy Search''))) = 12
   \<and> length (pt_nextBeginningIndexes (prepareTarget (\<lambda>s. s) (str ''Fuzzy Search''))) = 12
   \<and> pt_target (prepareTarget (\<lambda>s. s) (str ''Fuzzy Search'')) = str ''Fuzzy Search''"
  using prepareTarget_sequence_lengths [of "\<lambda>s. s" "str ''Fuzzy Search''"]
  by (simp add: str_def)

section \<open>The preparation caches\<close>

text \<open>
  C7: for a string of length at most 999, preparing it (as a target or as a
  search) when the cache has no entry for it returns the freshly built form
  and leaves the state changed in that one cache entry, which now holds the
  form; when the cache has an entry for it, that entry is returned and the
  state is unchanged; in both cases a second preparation, in the state the
  first one left, returns the form the cache holds and changes nothing. For a
  string longer than 999, the freshly built form is returned and the state is
  unchanged.
\<close>

theorem getPrepared_cache_behaviour:
  "(length s \<le> 999 \<and> targetCache st s = None \<longrightarrow>
      getPreparedTarget toLowerCase st s =
        (prepareTarget toLowerCase s,
         st\<lparr>targetCache := (targetCache st)(s \<mapsto> prepareTarget toLowerCase s)\<rparr>))
   \<and> (length s \<le> 999 \<and> targetCache st s = Some p \<longrightarrow>
      getPreparedTarget toLowerCase st s = (p, st))
   \<and> (length s \<le> 999 \<longrightarrow>
      (case getPreparedTarget toLowerCase st s of
         (p', st') \<Rightarrow> targetCache st' s = Some p'
                      \<and> getPreparedTarget toLowerCase st' s = (p', st')))
   \<and> (length s > 999 \<longrightarrow>
      getPreparedTarget toLowerCase st s = (prepareTarget toLowerCase s, st))
   \<and> (length s \<le> 999 \<and> searchCache st s = None \<longrightarrow>
      getPreparedSearch toLowerCase st s =
        (prepareSearch toLowerCase s,
         st\<lparr>searchCache := (searchCache st)(s \<mapsto> prepareSearch toLowerCase s)\<rparr>))
   \<and> (length s \<le> 999 \<and> searchCache st s = Some q \<longrightarrow>
      getPreparedSearch toLowerCase st s = (q, st))
   \<and> (length s \<le> 999 \<longrightarrow>
      (case getPreparedSearch toLowerCase st s of
         (q', st') \<Rightarrow> searchCache st' s = Some q'
                      \<and> getPreparedSearch toLowerCase st' s = (q', st')))
   \<and> (length s > 999 \<longrightarrow>
      getPreparedSearch toLowerCase st s = (prepareSearch toLowerCase s, st))"
  by (auto simp: getPreparedTarget_def getPreparedSearch_def Let_def
      MAX_TARGET_STRING_LENGTH_FOR_CACHING_def MAX_SEARCH_STRING_LENGTH_FOR_CACHING_def
      split: option.splits)

theorem getPrepared_cache_behaviour_witness:
  "getPreparedTarget (\<lambda>s. s) init_state (str ''a'') =
     (prepareTarget (\<lambda>s. s) (str ''a''),
      init_state\<lparr>targetCache := [str ''a'' \<mapsto> prepareTarget (\<lambda>s. s) (str ''a'')]\<rparr>)
   \<and> getPreparedTarget (\<lambda>s. s)
        (init_state\<lparr>targetCache := [str ''a'' \<mapsto> prepareTarget (\<lambda>s. s) (str ''a'')]\<rparr>)
        (str ''a'') =
     (prepareTarget (\<lambda>s. s) (str ''a''),
      init_state\<lparr>targetCache := [str ''a'' \<mapsto> prepareTarget (\<lambda>s. s) (str ''a'')]\<rparr>)
   \<and> getPreparedTarget (\<lambda>s. s) init_state (replicate 1000 97) =
     (prepareTarget (\<lambda>s. s) (replicate 1000 97), init_state)
   \<and> getPreparedSearch (\<lambda>s. s) init_state (str ''a'') =
     (prepareSearch (\<lambda>s. s) (str ''a''),
      init_state\<lparr>searchCache := [str ''a'' \<mapsto> prepareSearch (\<lambda>s. s) (str ''a'')]\<rparr>)
   \<and> getPreparedSearch (\<lambda>s. s)
        (init_state\<lparr>searchCache := [str ''a'' \<mapsto> prepareSearch (\<lambda>s. s) (str ''a'')]\<rparr>)
        (str ''a'') =
     (prepareSearch (\<lambda>s. s) (str ''a''),
      init_state\<lparr>searchCache := [str ''a'' \<mapsto> prepareSearch (\<lambda>s. s) (str ''a'')]\<rparr>)
   \<and> getPreparedSearch (\<lambda>s. s) init_state (replicate 1000 97) =
     (prepareSearch (\<lambda>s. s) (replicate 1000 97), init_state)"
  using getPrepared_cache_behaviour
      [where s = "str ''a''" and st = init_state and toLowerCase = "\<lambda>s. s"]
    getPrepared_cache_behaviour
      [where s = "str ''a''" and toLowerCase = "\<lambda>s. s"
         and st = "init_state\<lparr>targetCache := [str ''a'' \<mapsto> prepareTarget (\<lambda>s. s) (str ''a'')]\<rparr>"
         and p = "prepareTarget (\<lambda>s. s) (str ''a'')"]
    getPrepared_cache_behaviour
      [where s = "str ''a''" and toLowerCase = "\<lambda>s. s"
         and st = "init_state\<lparr>searchCache := [str ''a'' \<mapsto> prepareSearch (\<lambda>s. s) (str ''a'')]\<rparr>"
         and q = "prepareSearch (\<lambda>s. s) (str ''a'')"]
    getPrepared_cache_behaviour
      [where s = "replicate 1000 97" and st = init_state and toLowerCase = "\<lambda>s. s"]
  by (simp add: init_state_def str_def)

section \<open>The results of \<^verbatim>\<open>single\<close>\<close>

text \<open>
  C6: when the search is absent or the empty string, or the target is absent
  or the empty string, \<^verbatim>\<open>single\<close> returns \<^verbatim>\<open>null\<close>, whatever the other
  argument, the options and the state of the caches are.
\<close>

theorem single_empty_or_absent_returns_null:
  assumes "search = SearchAbsent \<or> search = SearchString []
         \<or> target = TargetAbsent \<or> target = TargetString []"
  shows "\<exists>st'. single toLowerCase instanceOptions st search target options
                  = Some (ReturnNull, st')"
proof (cases "not_search search")
  case True
  then show ?thesis by (simp add: single_def)
next
  case False
  then have "target = TargetAbsent \<or> target = TargetString []"
    using assms by auto
  then have "not_target target" by auto
  with False show ?thesis
    by (simp add: single_def split: prod.splits)
qed

theorem single_empty_or_absent_returns_null_witness:
  "\<exists>st'. single (\<lambda>s. s) None init_state (SearchString (str ''a'')) (TargetString []) None
            = Some (ReturnNull, st')"
  using single_empty_or_absent_returns_null
    [of "SearchString (str ''a'')" "TargetString []" "\<lambda>s. s" None init_state None]
  by simp

text \<open>
  The constant \<^verbatim>\<open>allowTypo\<close> is false when neither the call's options nor
  the instance's set the field.
\<close>

lemma allowTypo_of_unset:
  "allowTypo_of None None = False
   \<and> allowTypo_of (Some \<lparr>opt_allowTypo = None\<rparr>) None = False
   \<and> allowTypo_of None (Some \<lparr>opt_allowTypo = None\<rparr>) = False
   \<and> allowTypo_of (Some \<lparr>opt_allowTypo = None\<rparr>) (Some \<lparr>opt_allowTypo = None\<rparr>) = False"
  by (simp add: allowTypo_of_def and_allowTypo_def)

section \<open>The loop of \<^verbatim>\<open>algorithm\<close>\<close>

text \<open>
  No iteration of the loop returns, so no number of iterations does: the
  loop is the least fixed point of its equation, which is \<open>None\<close>.
\<close>

lemma algorithm_loop_never_returns:
  "algorithm_loop searchLowerCode targetLowerCodes searchIndex targetIndex matchesSimpleLen st
     = None"
proof (rule ccontr)
  assume "algorithm_loop searchLowerCode targetLowerCodes searchIndex targetIndex
            matchesSimpleLen st \<noteq> None"
  then obtain y where
    "algorithm_loop searchLowerCode targetLowerCodes searchIndex targetIndex
       matchesSimpleLen st = Some y"
    by auto
  then show False
    by (rule algorithm_loop.raw_induct [where P = "\<lambda>_ _ _ _ _ _ _. False", rotated])
       (auto simp: Let_def split: if_splits)
qed

lemma algorithm_nonempty_never_returns:
  "pt_targetLowerCodes pt \<noteq> [] \<Longrightarrow> algorithm st preparedSearch (Some pt) = None"
  by (simp add: algorithm_def Let_def algorithm_loop_never_returns)

lemma getPreparedTarget_fresh:
  "targetCache st t = None \<Longrightarrow>
   fst (getPreparedTarget toLowerCase st t) = prepareTarget toLowerCase t"
  by (simp add: getPreparedTarget_def Let_def)

lemma single_strings_never_return:
  assumes "s \<noteq> []" and "t \<noteq> []" and "targetCache st t = None"
  shows "single toLowerCase instanceOptions st (SearchString s) (TargetString t) options = None"
proof -
  obtain ps st1 where ps: "getPreparedSearch toLowerCase st s = (ps, st1)"
    by (cases "getPreparedSearch toLowerCase st s")
  have c1: "targetCache st1 = targetCache st"
    using ps by (auto simp: getPreparedSearch_def Let_def split: if_splits option.splits)
  obtain pt st2 where pt: "getPreparedTarget toLowerCase st1 t = (pt, st2)"
    by (cases "getPreparedTarget toLowerCase st1 t")
  have "pt = prepareTarget toLowerCase t"
    using getPreparedTarget_fresh [of st1 t toLowerCase] c1 assms(3) pt by simp
  then have "pt_targetLowerCodes pt \<noteq> []"
    using assms(2) prepareLowerCodes_length [of toLowerCase t]
    by (auto simp: prepareTarget_def)
  then have "algorithm st2 ps (Some pt) = None"
    by (rule algorithm_nonempty_never_returns)
  then show ?thesis
    using assms(1,2) ps pt by (simp add: single_def)
qed

text \<open>
  C1: the usage comment gives \<^verbatim>\<open>single('fs', 'Fuzzy Search')\<close> a result with
  a score and \<^verbatim>\<open>single('doesnt exist', 'target')\<close> the result \<^verbatim>\<open>null\<close>.
  In a freshly loaded module neither call returns: the first search is a
  subsequence of its target and gets no match, the second is not and gets no
  \<^verbatim>\<open>null\<close>.
\<close>

theorem single_fs_Fuzzy_Search_never_returns:
  "single toLowerCase instanceOptions init_state
     (SearchString (str ''fs'')) (TargetString (str ''Fuzzy Search'')) options = None
   \<and> single toLowerCase instanceOptions init_state
     (SearchString (str ''doesnt exist'')) (TargetString (str ''target'')) options = None"
  by (simp add: single_strings_never_return str_def init_state_def)

text \<open>
  C2: \<^verbatim>\<open>single('mr', 'Monitor.cpp')\<close>, a pair of strings, does not terminate
  in a freshly loaded module: the call produces no result.
\<close>

theorem single_mr_Monitor_never_returns:
  "single toLowerCase instanceOptions init_state
     (SearchString (str ''mr'')) (TargetString (str ''Monitor.cpp'')) options = None"
  by (simp add: single_strings_never_return str_def init_state_def)

text \<open>
  C3: \<^verbatim>\<open>single('test', 'test')\<close>, which the usage comment gives the score 0,
  does not return in a freshly loaded module.
\<close>

theorem single_test_test_never_returns:
  "single toLowerCase instanceOptions init_state
     (SearchString (str ''test'')) (TargetString (str ''test'')) options = None"
  by (simp add: single_strings_never_return str_def init_state_def)

text \<open>
  C9: the usage comment gives \<^verbatim>\<open>'mr'\<close> a result with a score against
  \<^verbatim>\<open>'MeshRenderer.cpp'\<close>, a pair that matches without typos. In a freshly
  loaded module \<^verbatim>\<open>single('mr', 'MeshRenderer.cpp', {allowTypo: true})\<close> does
  not return, and neither does the call with \<^verbatim>\<open>allowTypo: false\<close>: there is
  no result of the one to be the same as the result of the other.
\<close>

theorem single_allowTypo_mr_MeshRenderer_never_returns:
  "single toLowerCase instanceOptions init_state
     (SearchString (str ''mr'')) (TargetString (str ''MeshRenderer.cpp''))
     (Some \<lparr>opt_allowTypo = Some True\<rparr>) = None
   \<and> single toLowerCase instanceOptions init_state
     (SearchString (str ''mr'')) (TargetString (str ''MeshRenderer.cpp''))
     (Some \<lparr>opt_allowTypo = Some False\<rparr>) = None"
  by (simp add: single_strings_never_return str_def init_state_def)

section \<open>Word beginnings\<close>

lemma prepareBeginningIndexes_loop_step:
  "i < length target \<Longrightarrow>
   prepareBeginningIndexes_loop target i wasUpper wasAlphanum beginningIndexes beginningIndexesLen =
     (if (isUpper_code (target ! i) \<and> \<not> wasUpper) \<or> \<not> wasAlphanum
          \<or> \<not> isAlphanum_code (target ! i)
      then prepareBeginningIndexes_loop target (i + 1) (isUpper_code (target ! i))
             (isAlphanum_code (target ! i))
             (array_set beginningIndexes beginningIndexesLen (Num i)) (beginningIndexesLen + 1)
      else prepareBeginningIndexes_loop target (i + 1) (isUpper_code (target ! i))
             (isAlphanum_code (target ! i)) beginningIndexes beginningIndexesLen)"
  by (subst prepareBeginningIndexes_loop.simps)
     (auto simp: charCodeAt_def isUpper_code_def isAlphanum_code_def Let_def)

lemma prepareBeginningIndexes_loop_eq:
  assumes "i \<le> length target"
    and "beginningIndexesLen = length beginningIndexes"
    and "wasUpper = (0 < i \<and> isUpper_code (target ! (i - 1)))"
    and "wasAlphanum = (0 < i \<and> isAlphanum_code (target ! (i - 1)))"
  shows "prepareBeginningIndexes_loop target i wasUpper wasAlphanum beginningIndexes beginningIndexesLen
         = beginningIndexes @ map Num (filter (isBeginning_at target) [i..<length target])"
  using assms
proof (induction "length target - i" arbitrary: i wasUpper wasAlphanum beginningIndexes beginningIndexesLen)
  case 0
  then have "i = length target" by simp
  then show ?case by (subst prepareBeginningIndexes_loop.simps) simp
next
  case (Suc n)
  then have lt: "i < length target" by simp
  let ?up = "isUpper_code (target ! i)"
  let ?al = "isAlphanum_code (target ! i)"
  have n: "n = length target - (i + 1)" using Suc.hyps(2) by simp
  have le: "i + 1 \<le> length target" using lt by simp
  have up: "?up = (0 < i + 1 \<and> isUpper_code (target ! (i + 1 - 1)))" by simp
  have al: "?al = (0 < i + 1 \<and> isAlphanum_code (target ! (i + 1 - 1)))" by simp
  have beg: "isBeginning_at target i = ((?up \<and> \<not> wasUpper) \<or> \<not> wasAlphanum \<or> \<not> ?al)"
    using Suc.prems(3,4) by (simp add: isBeginning_at_def)
  have upt: "[i..<length target] = i # [i + 1..<length target]"
    using lt by (simp add: upt_conv_Cons)
  show ?case
  proof (cases "isBeginning_at target i")
    case True
    have app: "array_set beginningIndexes beginningIndexesLen (Num i) = beginningIndexes @ [Num i]"
      using Suc.prems(2) by (simp add: array_set_def)
    have "prepareBeginningIndexes_loop target (i + 1) ?up ?al (beginningIndexes @ [Num i])
            (beginningIndexesLen + 1)
          = (beginningIndexes @ [Num i])
            @ map Num (filter (isBeginning_at target) [i + 1..<length target])"
    proof -
      have "beginningIndexesLen + 1 = length (beginningIndexes @ [Num i])"
        using Suc.prems(2) by simp
      then show ?thesis by (rule Suc.hyps(1) [OF n le _ up al])
    qed
    moreover have "prepareBeginningIndexes_loop target i wasUpper wasAlphanum beginningIndexes
            beginningIndexesLen
          = prepareBeginningIndexes_loop target (i + 1) ?up ?al (beginningIndexes @ [Num i])
            (beginningIndexesLen + 1)"
      using True beg app by (auto simp: prepareBeginningIndexes_loop_step [OF lt])
    ultimately show ?thesis using True upt by simp
  next
    case False
    have "prepareBeginningIndexes_loop target (i + 1) ?up ?al beginningIndexes beginningIndexesLen
          = beginningIndexes @ map Num (filter (isBeginning_at target) [i + 1..<length target])"
      using Suc.hyps(1) [OF n le Suc.prems(2) up al] .
    moreover have "prepareBeginningIndexes_loop target i wasUpper wasAlphanum beginningIndexes
            beginningIndexesLen
          = prepareBeginningIndexes_loop target (i + 1) ?up ?al beginningIndexes beginningIndexesLen"
      using False beg by (auto simp: prepareBeginningIndexes_loop_step [OF lt])
    ultimately show ?thesis using False upt by simp
  qed
qed

lemma prepareBeginningIndexes_eq:
  "prepareBeginningIndexes target = map Num (filter (isBeginning_at target) [0..<length target])"
  using prepareBeginningIndexes_loop_eq [of 0 target 0 "[]" False False]
  by (simp add: prepareBeginningIndexes_def)

lemma isUpper_code_letters: "isUpper_code c = is_latin_capital c"
  unfolding isUpper_code_def is_latin_capital_def str_def by (simp, arith)

lemma lower_range_letters:
  "(97 \<le> c \<and> c \<le> 122) = (c \<in> set (str ''abcdefghijklmnopqrstuvwxyz''))"
  unfolding str_def by (simp, arith)

lemma digit_range_letters:
  "(48 \<le> c \<and> c \<le> 57) = (c \<in> set (str ''0123456789''))"
  unfolding str_def by (simp, arith)

lemma isAlphanum_code_letters: "isAlphanum_code c = is_ascii_alphanumeric c"
  unfolding isAlphanum_code_def is_ascii_alphanumeric_def
    lower_range_letters digit_range_letters isUpper_code_letters is_latin_capital_def
  by (rule refl)

text \<open>
  C5: position \<open>i\<close> is among the beginning indexes of a string exactly when
  it is a position of the string and the character there is a Latin capital
  while the previous one is not, or the previous character is not
  alphanumeric, or the character there is not alphanumeric; position 0 has no
  previous character, which counts as neither. So position 0 of every
  non-empty string is a beginning index.
\<close>

theorem prepareBeginningIndexes_marks_word_beginnings:
  "(Num i \<in> set (prepareBeginningIndexes target) \<longleftrightarrow>
      i < length target \<and>
      ((is_latin_capital (target ! i) \<and> \<not> (0 < i \<and> is_latin_capital (target ! (i - 1))))
       \<or> \<not> (0 < i \<and> is_ascii_alphanumeric (target ! (i - 1)))
       \<or> \<not> is_ascii_alphanumeric (target ! i)))
   \<and> (target \<noteq> [] \<longrightarrow> Num 0 \<in> set (prepareBeginningIndexes target))"
proof -
  have "Num i \<in> set (prepareBeginningIndexes target)
        \<longleftrightarrow> i < length target \<and> isBeginning_at target i" for i
    by (auto simp: prepareBeginningIndexes_eq)
  then show ?thesis
    by (simp add: isBeginning_at_def isUpper_code_letters isAlphanum_code_letters)
qed

theorem prepareBeginningIndexes_marks_word_beginnings_witness:
  "Num 6 \<in> set (prepareBeginningIndexes (str ''Fuzzy Search''))
   \<and> Num 7 \<notin> set (prepareBeginningIndexes (str ''Fuzzy Search''))
   \<and> Num 0 \<in> set (prepareBeginningIndexes (str ''Fuzzy Search''))"
  using prepareBeginningIndexes_marks_word_beginnings [of 6 "str ''Fuzzy Search''"] prepareBeginningIndexes_marks_word_beginnings [of 7 "str ''Fuzzy Search''"]
  by (simp add: str_def is_latin_capital_def is_ascii_alphanumeric_def)

section \<open>Next beginning indexes\<close>

lemma array_get_map_Num:
  "array_get (map Num B) k = (case drop k B of [] \<Rightarrow> Undefined | b # _ \<Rightarrow> Num b)"
proof (cases "k < length B")
  case True
  then show ?thesis
    by (simp add: array_get_def Cons_nth_drop_Suc [symmetric])
next
  case False
  then show ?thesis by (simp add: array_get_def)
qed

lemma filter_Suc_le_filter_le:
  "filter (\<lambda>b. Suc i \<le> b) B = filter (\<lambda>b. Suc i \<le> b) (filter (\<lambda>b. i \<le> b) B)"
  by (induction B) auto

lemma filter_advance_via_drop:
  assumes "drop k B = filter (\<lambda>b. i \<le> b) B"
  shows "filter (\<lambda>b. Suc i \<le> b) B = filter (\<lambda>b. Suc i \<le> b) (drop k B)"
  by (subst filter_Suc_le_filter_le) (simp only: assms)

lemma filter_advance_keep:
  assumes "sorted_wrt (<) B" and "drop k B = filter (\<lambda>b. i \<le> b) B"
    and "drop k B = b # rest" and "i < b"
  shows "filter (\<lambda>b. Suc i \<le> b) B = drop k B"
proof -
  have "sorted_wrt (<) (b # rest)"
    using assms(1,3) sorted_wrt_drop [of "(<)" B k] by simp
  then have "\<forall>x\<in>set (b # rest). Suc i \<le> x"
    using assms(4) by auto
  then have "filter (\<lambda>b. Suc i \<le> b) (b # rest) = b # rest"
    by (simp only: filter_True)
  then have "filter (\<lambda>b. Suc i \<le> b) (drop k B) = drop k B"
    by (simp only: assms(3))
  then show ?thesis
    by (simp only: filter_advance_via_drop [OF assms(2)])
qed

lemma filter_advance_next:
  assumes "sorted_wrt (<) B" and "drop k B = filter (\<lambda>b. i \<le> b) B"
    and "drop k B = b # rest" and "\<not> i < b"
  shows "filter (\<lambda>b. Suc i \<le> b) B = drop (Suc k) B"
proof -
  have "b \<in> set (drop k B)"
    by (simp only: assms(3) list.set_intros(1))
  then have "b \<in> set (filter (\<lambda>b. i \<le> b) B)"
    by (simp only: assms(2))
  then have "b = i" using assms(4) by simp
  have "sorted_wrt (<) (b # rest)"
    using assms(1,3) sorted_wrt_drop [of "(<)" B k] by simp
  then have "\<forall>x\<in>set rest. Suc i \<le> x"
    using \<open>b = i\<close> by auto
  then have "filter (\<lambda>b. Suc i \<le> b) rest = rest"
    by (simp only: filter_True)
  then have "filter (\<lambda>b. Suc i \<le> b) (b # rest) = rest"
    using \<open>b = i\<close> by simp
  then have "filter (\<lambda>b. Suc i \<le> b) (drop k B) = rest"
    by (simp only: assms(3))
  moreover have "drop (Suc k) B = tl (drop k B)"
    by (simp only: drop_Suc tl_drop)
  then have "drop (Suc k) B = rest"
    by (simp only: assms(3) list.sel(3))
  ultimately show ?thesis
    by (simp only: filter_advance_via_drop [OF assms(2)])
qed

lemma filter_advance_empty:
  assumes "drop k B = filter (\<lambda>b. i \<le> b) B" and "drop k B = []"
  shows "filter (\<lambda>b. Suc i \<le> b) B = drop (Suc k) B"
proof -
  have "drop (Suc k) B = []" using assms(2) by simp
  moreover have "filter (\<lambda>b. Suc i \<le> b) (drop k B) = []"
    by (simp only: assms(2) filter.simps(1))
  ultimately show ?thesis
    by (simp only: filter_advance_via_drop [OF assms(1)])
qed

lemma prepareNextBeginningIndexes_loop_frame:
  "targetLen \<le> length nexts \<Longrightarrow> j < i \<Longrightarrow>
   prepareNextBeginningIndexes_loop targetLen bs i lastB lastI nexts ! j = nexts ! j"
proof (induction "targetLen - i" arbitrary: i lastB lastI nexts)
  case 0
  then show ?case by (subst prepareNextBeginningIndexes_loop.simps) simp
next
  case (Suc n)
  then have lt: "i < targetLen" by simp
  have n: "n = targetLen - (i + 1)" using Suc.hyps(2) by simp
  have ji: "j < i + 1" using Suc.prems(2) by simp
  have len: "targetLen \<le> length (array_set nexts i v)" for v
    using Suc.prems(1) lt by (simp add: array_set_length_in_range)
  have keep: "array_set nexts i v ! j = nexts ! j" for v
    using Suc.prems lt by (simp add: array_set_def)
  show ?case
    using lt Suc.hyps(1) [OF n len ji] keep
    by (subst prepareNextBeginningIndexes_loop.simps) (simp add: Let_def)
qed

lemma prepareNextBeginningIndexes_loop_entry:
  assumes "sorted_wrt (<) B"
    and "drop lastI B = filter (\<lambda>b. i \<le> b) B"
    and "lastB = array_get (map Num B) lastI"
    and "targetLen \<le> length nexts"
    and "i \<le> j" and "j < targetLen"
  shows "prepareNextBeginningIndexes_loop targetLen (map Num B) i lastB lastI nexts ! j
         = Num (first_or (filter (\<lambda>b. Suc j \<le> b) B) targetLen)"
  using assms(2-5)
proof (induction "targetLen - i" arbitrary: i lastB lastI nexts)
  case 0
  then show ?case using assms(6) by simp
next
  case (Suc n)
  then have lt: "i < targetLen" by simp
  have n: "n = targetLen - (i + 1)" using Suc.hyps(2) by simp
  have len: "targetLen \<le> length (array_set nexts i v)" for v
    using Suc.prems(3) lt by (simp add: array_set_length_in_range)
  have at_i: "array_set nexts i v ! i = v" for v
    using Suc.prems(3) lt by (simp add: array_set_def)
  let ?F = "filter (\<lambda>b. Suc i \<le> b) B"
  show ?case
  proof (cases "gt lastB i")
    case True
    then obtain b rest where d: "drop lastI B = b # rest" and b: "i < b" and lb: "lastB = Num b"
      using Suc.prems(2) by (auto simp: array_get_map_Num split: list.splits)
    have F: "?F = drop lastI B"
      using filter_advance_keep [OF assms(1) Suc.prems(1) d b] .
    have unfold: "prepareNextBeginningIndexes_loop targetLen (map Num B) i lastB lastI nexts
        = prepareNextBeginningIndexes_loop targetLen (map Num B) (i + 1) lastB lastI
            (array_set nexts i lastB)"
      using lt True by (subst prepareNextBeginningIndexes_loop.simps) simp
    show ?thesis
    proof (cases "j = i")
      case True
      then show ?thesis
        using unfold prepareNextBeginningIndexes_loop_frame
                [of targetLen "array_set nexts i lastB" i "i + 1" "map Num B" lastB lastI]
          len at_i F d lb
        by (simp add: first_or_def)
    next
      case False
      then have "i + 1 \<le> j" using Suc.prems(4) by simp
      then show ?thesis
        using unfold Suc.hyps(1) [OF n _ Suc.prems(2) len, of lastB] F by simp
    qed
  next
    case False
    have F: "?F = drop (lastI + 1) B"
    proof (cases "drop lastI B")
      case Nil
      then show ?thesis using filter_advance_empty [OF Suc.prems(1)] by simp
    next
      case (Cons b rest)
      then have "\<not> i < b"
        using False Suc.prems(2) by (simp add: array_get_map_Num)
      then show ?thesis
        using filter_advance_next [OF assms(1) Suc.prems(1) Cons] by simp
    qed
    let ?last' = "array_get (map Num B) (lastI + 1)"
    let ?v = "if strict_equals ?last' Undefined then Num targetLen else ?last'"
    have v: "?v = Num (first_or ?F targetLen)"
      by (simp add: array_get_map_Num F first_or_def strict_equals_def split: list.splits)
    have unfold: "prepareNextBeginningIndexes_loop targetLen (map Num B) i lastB lastI nexts
        = prepareNextBeginningIndexes_loop targetLen (map Num B) (i + 1) ?last' (lastI + 1)
            (array_set nexts i ?v)"
      using lt False by (subst prepareNextBeginningIndexes_loop.simps) (simp add: Let_def)
    show ?thesis
    proof (cases "j = i")
      case True
      then show ?thesis
        using unfold prepareNextBeginningIndexes_loop_frame
                [of targetLen "array_set nexts i ?v" i "i + 1" "map Num B" ?last' "lastI + 1"]
          len at_i v
        by simp
    next
      case False
      then have "i + 1 \<le> j" using Suc.prems(4) by simp
      then show ?thesis
        using unfold Suc.hyps(1) [OF n _ refl len, of "lastI + 1"] F by simp
    qed
  qed
qed

lemma prepareNextBeginningIndexes_entry:
  assumes "i < length target"
  shows "prepareNextBeginningIndexes target ! i
         = Num (first_or (filter (\<lambda>b. Suc i \<le> b)
                  (filter (isBeginning_at target) [0..<length target])) (length target))"
proof -
  let ?B = "filter (isBeginning_at target) [0..<length target]"
  have s: "sorted_wrt (<) ?B" by (simp add: sorted_wrt_filter)
  have d: "drop 0 ?B = filter (\<lambda>b. 0 \<le> b) ?B" by simp
  show ?thesis
    using prepareNextBeginningIndexes_loop_entry
            [OF s d refl, of "length target" "fillNumberArray (length target)" i] assms
    by (simp add: prepareNextBeginningIndexes_def prepareBeginningIndexes_eq Let_def
        fillNumberArray_def)
qed

lemma filter_le_upt: "filter (\<lambda>b. k \<le> b) [0..<n] = [k..<n]"
proof (induction n)
  case 0
  then show ?case by simp
next
  case (Suc n)
  then show ?case by (cases "k \<le> n") auto
qed

lemma filter_le_filter_upt:
  "filter (\<lambda>b. k \<le> b) (filter P [0..<n]) = filter P [k..<n]"
proof -
  have "filter (\<lambda>b. k \<le> b) (filter P [0..<n]) = filter P (filter (\<lambda>b. k \<le> b) [0..<n])"
    by (simp add: conj_commute)
  then show ?thesis by (simp only: filter_le_upt)
qed

lemma beginnings_from_eq:
  "beginnings_from target k = filter (isBeginning_at target) [k..<length target]"
  unfolding beginnings_from_def prepareBeginningIndexes_eq
  by (rule filter_cong) auto

lemma first_or_smallest_or:
  assumes "sorted_wrt (<) bs"
  shows "first_or bs d = smallest_or bs d"
proof (cases bs)
  case Nil
  then show ?thesis by (simp add: first_or_def smallest_or_def)
next
  case (Cons b rest)
  then have "\<forall>x\<in>set rest. b \<le> x" using assms by auto
  then have "Min (set (b # rest)) = b"
    by (intro Min_eqI) auto
  then show ?thesis using Cons by (simp add: first_or_def smallest_or_def)
qed

lemma prepareNextBeginningIndexes_entry_from:
  assumes "i < length target"
  shows "prepareNextBeginningIndexes target ! i
         = Num (first_or (beginnings_from target (i + 1)) (length target))"
  using prepareNextBeginningIndexes_entry [OF assms]
  by (simp only: filter_le_filter_upt beginnings_from_eq Suc_eq_plus1)

text \<open>
  C4, as amended: for every position \<open>i\<close> of a string, the entry \<open>i\<close> of
  the next beginning indexes is the smallest word beginning strictly greater
  than \<open>i\<close>, or the length of the string if there is none.
\<close>

theorem nextBeginningIndexes_entry_smallest_beginning_after:
  assumes "i < length target"
  shows "prepareNextBeginningIndexes target ! i = Num (nextBoundary_after target i)"
proof -
  have "sorted_wrt (<) (beginnings_from target (i + 1))"
    by (simp add: beginnings_from_def sorted_wrt_filter)
  then show ?thesis
    using prepareNextBeginningIndexes_entry_from [OF assms]
    by (simp add: nextBoundary_after_def first_or_smallest_or)
qed

theorem nextBeginningIndexes_entry_smallest_beginning_after_witness:
  "(5::nat) < length (str ''Fuzzy Search'')
   \<and> prepareNextBeginningIndexes (str ''Fuzzy Search'') ! 5
       = Num (nextBoundary_after (str ''Fuzzy Search'') 5)"
  using nextBeginningIndexes_entry_smallest_beginning_after [of 5 "str ''Fuzzy Search''"] by (simp add: str_def)

text \<open>
  C4, as stated, fails at position 0 of the string \<^verbatim>\<open>a\<close>: position 0 is a
  word beginning, so the smallest beginning at or after 0 is 0, and the
  entry is 1.
\<close>

theorem nextBeginningIndexes_entry_not_at_or_after:
  "(0::nat) < length (str ''a'')
   \<and> prepareNextBeginningIndexes (str ''a'') ! 0 \<noteq> Num (nextBoundary_at_or_after (str ''a'') 0)"
  by (simp add: str_def prepareNextBeginningIndexes_def prepareBeginningIndexes_def
      prepareBeginningIndexes_loop.simps prepareNextBeginningIndexes_loop.simps
      nextBoundary_at_or_after_def beginnings_from_def smallest_or_def
      fillNumberArray_def array_get_def array_set_def charCodeAt_def strict_equals_def)

lemma beginning_index_iff:
  "Num b \<in> set (prepareBeginningIndexes target)
     \<longleftrightarrow> b < length target \<and> isBeginning_at target b"
  by (auto simp: prepareBeginningIndexes_eq)

text \<open>
  C10: for every position \<open>i\<close> of a string, be it a word beginning or not,
  the entry \<open>i\<close> of the next beginning indexes is a number strictly greater
  than \<open>i\<close> and at most the length of the string; it is the first of the
  word beginnings after \<open>i\<close>, or the length when there is none: it is the
  length or a word beginning, and no position strictly between \<open>i\<close> and the
  entry is a word beginning.
\<close>

theorem nextBeginningIndexes_entry_past_position:
  assumes "i < length target"
  shows "\<exists>n. prepareNextBeginningIndexes target ! i = Num n
           \<and> i < n \<and> n \<le> length target
           \<and> n = first_or (beginnings_from target (i + 1)) (length target)
           \<and> (n = length target \<or> Num n \<in> set (prepareBeginningIndexes target))
           \<and> (\<forall>b. i < b \<and> b < n \<longrightarrow> Num b \<notin> set (prepareBeginningIndexes target))"
proof -
  let ?bs = "beginnings_from target (i + 1)"
  let ?n = "first_or ?bs (length target)"
  have sorted: "sorted_wrt (<) ?bs"
    by (simp add: beginnings_from_def sorted_wrt_filter)
  have mem: "b \<in> set ?bs \<longleftrightarrow> i < b \<and> b < length target
               \<and> Num b \<in> set (prepareBeginningIndexes target)" for b
    by (auto simp: beginnings_from_def)
  have below: "Num b \<in> set (prepareBeginningIndexes target) \<Longrightarrow> b < length target" for b
    by (simp add: beginning_index_iff)
  have "i < ?n \<and> ?n \<le> length target
        \<and> (?n = length target \<or> Num ?n \<in> set (prepareBeginningIndexes target))
        \<and> (\<forall>b. i < b \<and> b < ?n \<longrightarrow> Num b \<notin> set (prepareBeginningIndexes target))"
  proof (cases ?bs)
    case Nil
    then have "\<And>b. b \<notin> set ?bs" by simp
    then have "\<forall>b. i < b \<and> b < length target \<longrightarrow> Num b \<notin> set (prepareBeginningIndexes target)"
      using mem by blast
    then show ?thesis using Nil assms by (simp add: first_or_def)
  next
    case (Cons c rest)
    then have c: "c \<in> set ?bs" by simp
    have least: "\<forall>x\<in>set ?bs. c \<le> x"
      using sorted Cons by auto
    have n: "?n = c" using Cons by (simp add: first_or_def)
    have "\<forall>b. i < b \<and> b < c \<longrightarrow> Num b \<notin> set (prepareBeginningIndexes target)"
    proof (intro allI impI notI)
      fix b assume "i < b \<and> b < c" and in_b: "Num b \<in> set (prepareBeginningIndexes target)"
      then have "b \<in> set ?bs" using mem below by blast
      then have "c \<le> b" using least by blast
      then show False using \<open>i < b \<and> b < c\<close> by simp
    qed
    then show ?thesis using c mem n by simp
  qed
  then show ?thesis
    using prepareNextBeginningIndexes_entry_from [OF assms] by simp
qed

theorem nextBeginningIndexes_entry_past_position_witness:
  "(0::nat) < length (str ''Fuzzy Search'')
   \<and> Num 0 \<in> set (prepareBeginningIndexes (str ''Fuzzy Search''))
   \<and> prepareNextBeginningIndexes (str ''Fuzzy Search'') ! 0 = Num 5"
proof -
  have l: "(0::nat) < length (str ''Fuzzy Search'')"
    by (simp add: str_def)
  have e: "first_or (beginnings_from (str ''Fuzzy Search'') (0 + 1))
             (length (str ''Fuzzy Search'')) = 5"
    by code_simp
  have z: "Num 0 \<in> set (prepareBeginningIndexes (str ''Fuzzy Search''))"
    by code_simp
  obtain n where "prepareNextBeginningIndexes (str ''Fuzzy Search'') ! 0 = Num n"
    and "n = first_or (beginnings_from (str ''Fuzzy Search'') (0 + 1))
               (length (str ''Fuzzy Search''))"
    using nextBeginningIndexes_entry_past_position [OF l] by blast
  then have "prepareNextBeginningIndexes (str ''Fuzzy Search'') ! 0 = Num 5"
    by (simp only: e)
  with l z show ?thesis by (intro conjI)
qed

end
